theory Spec2Isabelle
  imports Main "HOL-Library.Word"
begin

section \<open>JavaScript values\<close>

text \<open>
  A JavaScript string is a sequence of 16-bit code units; a \<open>Uint8Array\<close> is a sequence
  of bytes. Source literals are written with \<open>js\<close>, which widens each ASCII character
  to its code unit.
\<close>

type_synonym code_unit = "16 word"
type_synonym jsstring = "code_unit list"
type_synonym byte = "8 word"

definition js :: "string \<Rightarrow> jsstring" where
  "js s = map of_char s"

text \<open>
  Payloads and untyped responses are JavaScript values. An object is the list of its
  own properties; a property read takes the first entry of that name.
\<close>

datatype jsval =
    JUndefined
  | JNull
  | JBool bool
  | JNum int
  | JStr jsstring
  | JArr "jsval list"
  | JObj "(jsstring \<times> jsval) list"

text \<open>
  What can be thrown or rejected: \<open>new Error(message)\<close>, the \<open>TypeError\<close> of a property
  read on \<open>null\<close> or \<open>undefined\<close>, the \<open>InvalidCharacterError\<close> of \<open>btoa\<close> and
  \<open>atob\<close>, and whatever value the host rejects an invocation with.
\<close>

datatype error =
    Error string
  | TypeError
  | InvalidCharacterError
  | Rejected jsval

text \<open>\<open>a ?? b\<close>: \<open>b\<close> when \<open>a\<close> is \<open>null\<close> or \<open>undefined\<close>.\<close>

definition nullish :: "jsval \<Rightarrow> jsval \<Rightarrow> jsval" where
  "nullish a b = (if a = JUndefined \<or> a = JNull then b else a)"

text \<open>
  \<open>v.name\<close> where \<open>name\<close> is not a built-in property of any primitive or array: the entry
  of an object, \<open>undefined\<close> when there is none, and a \<open>TypeError\<close> on \<open>null\<close> and
  \<open>undefined\<close>.
\<close>

definition get_prop :: "jsval \<Rightarrow> jsstring \<Rightarrow> error + jsval" where
  "get_prop v name =
     (case v of
        JUndefined \<Rightarrow> Inl TypeError
      | JNull \<Rightarrow> Inl TypeError
      | JObj fields \<Rightarrow> (case map_of fields name of Some x \<Rightarrow> Inr x | None \<Rightarrow> Inr JUndefined)
      | _ \<Rightarrow> Inr JUndefined)"

section \<open>The invocation layer (guest-js/index.ts)\<close>

text \<open>
  \<open>invoke\<close> belongs to the host runtime. It is a parameter of every binding: a function
  from the command string and the argument object to a rejection or a response of the
  type the binding declares. Each invocation made is appended to a trace, so that what
  was sent, and whether anything was sent, can be read off.
\<close>

type_synonym 'r invoke = "jsstring \<Rightarrow> jsval \<Rightarrow> error + 'r"
type_synonym trace = "(jsstring \<times> jsval) list"

definition NAMESPACE :: jsstring where
  "NAMESPACE = js ''plugin:web-bluetooth''"

text \<open>
  \<open>call(command, payload?)\<close>. The payload has type \<open>Record<string, unknown>\<close> and may
  be omitted; \<open>payload ?? {}\<close> then sends the empty object.
\<close>

definition call ::
  "'r invoke \<Rightarrow> jsstring \<Rightarrow> (jsstring \<times> jsval) list option \<Rightarrow> trace \<Rightarrow> (error + 'r) \<times> trace" where
  "call invoke command payload tr =
     (let name = NAMESPACE @ js ''|'' @ command;
          args = (case payload of None \<Rightarrow> JObj [] | Some p \<Rightarrow> JObj p)
      in (invoke name args, tr @ [(name, args)]))"

text \<open>\<open>ping(value)\<close>: \<open>response.value ?? null\<close> on the response of the command \<open>ping\<close>.\<close>

definition ping :: "jsval invoke \<Rightarrow> jsstring \<Rightarrow> trace \<Rightarrow> (error + jsval) \<times> trace" where
  "ping invoke v tr =
     (case call invoke (js ''ping'') (Some [(js ''payload'', JObj [(js ''value'', JStr v)])]) tr of
        (Inl e, tr') \<Rightarrow> (Inl e, tr')
      | (Inr response, tr') \<Rightarrow>
          (case get_prop response (js ''value'') of
             Inl e \<Rightarrow> (Inl e, tr')
           | Inr x \<Rightarrow> (Inr (nullish x JNull), tr')))"

text \<open>The device record of the bindings; the field \<open>id\<close> of the source is \<open>id'\<close> here.\<close>

record BluetoothDevice =
  id' :: jsstring
  name :: "jsstring option"
  uuids :: "jsstring list"
  watchingAdvertisements :: bool
  connected :: bool

definition getAvailability :: "bool invoke \<Rightarrow> trace \<Rightarrow> (error + bool) \<times> trace" where
  "getAvailability invoke tr = call invoke (js ''get_availability'') None tr"

definition getDevices ::
  "BluetoothDevice list invoke \<Rightarrow> trace \<Rightarrow> (error + BluetoothDevice list) \<times> trace" where
  "getDevices invoke tr = call invoke (js ''get_devices'') None tr"

text \<open>\<open>requestDevice(options)\<close> hands the options object over as it is.\<close>

definition requestDevice ::
  "BluetoothDevice invoke \<Rightarrow> jsval \<Rightarrow> trace \<Rightarrow> (error + BluetoothDevice) \<times> trace" where
  "requestDevice invoke options tr =
     call invoke (js ''request_device'') (Some [(js ''options'', options)]) tr"

text \<open>The commands that take \<open>{ request: { deviceId, serviceUuid, characteristicUuid } }\<close>.\<close>

definition startNotifications ::
  "unit invoke \<Rightarrow> jsstring \<Rightarrow> jsstring \<Rightarrow> jsstring \<Rightarrow> trace \<Rightarrow> (error + unit) \<times> trace" where
  "startNotifications invoke deviceId serviceUuid characteristicUuid tr =
     call invoke (js ''start_notifications'')
       (Some [(js ''request'',
               JObj [(js ''deviceId'', JStr deviceId),
                     (js ''serviceUuid'', JStr serviceUuid),
                     (js ''characteristicUuid'', JStr characteristicUuid)])]) tr"

definition stopNotifications ::
  "unit invoke \<Rightarrow> jsstring \<Rightarrow> jsstring \<Rightarrow> jsstring \<Rightarrow> trace \<Rightarrow> (error + unit) \<times> trace" where
  "stopNotifications invoke deviceId serviceUuid characteristicUuid tr =
     call invoke (js ''stop_notifications'')
       (Some [(js ''request'',
               JObj [(js ''deviceId'', JStr deviceId),
                     (js ''serviceUuid'', JStr serviceUuid),
                     (js ''characteristicUuid'', JStr characteristicUuid)])]) tr"

section \<open>Built-in string functions\<close>

text \<open>
  Modelled from the spec: the platform functions the example application calls
  (\<open>trim\<close>, \<open>split\<close>, \<open>startsWith\<close>, \<open>parseInt\<close>, \<open>String.fromCharCode\<close>,
  \<open>toString(16)\<close>, \<open>padStart\<close>, \<open>join\<close>, \<open>btoa\<close>, \<open>atob\<close>, \<open>TextEncoder\<close>) are not
  part of the repository. The spec only says that payloads cross the boundary as base64
  text and that text is UTF-8 encoded first; the definitions below follow the standard
  meaning of these functions (ECMAScript, RFC 4648, the forgiving base64 decoder of
  browsers).
\<close>

text \<open>White space and line terminators, as \<open>trim\<close> and \<open>parseInt\<close> skip them.\<close>

definition is_ws :: "code_unit \<Rightarrow> bool" where
  "is_ws c \<longleftrightarrow>
     c \<in> set [0x09, 0x0A, 0x0B, 0x0C, 0x0D, 0x20, 0xA0, 0x1680, 0x2028, 0x2029, 0x202F,
              0x205F, 0x3000, 0xFEFF]
     \<or> (0x2000 \<le> c \<and> c \<le> 0x200A)"

definition trim :: "jsstring \<Rightarrow> jsstring" where
  "trim s = rev (dropWhile is_ws (rev (dropWhile is_ws s)))"

text \<open>\<open>s.split(sep)\<close> for a separator of one code unit.\<close>

fun split_on :: "code_unit \<Rightarrow> jsstring \<Rightarrow> jsstring list" where
  "split_on sep [] = [[]]"
| "split_on sep (c # r) =
     (if c = sep then [] # split_on sep r
      else (case split_on sep r of [] \<Rightarrow> [[c]] | p # ps \<Rightarrow> (c # p) # ps))"

definition startsWith :: "jsstring \<Rightarrow> jsstring \<Rightarrow> bool" where
  "startsWith s p \<longleftrightarrow> take (length p) s = p"

text \<open>\<open>parts.join(sep)\<close>.\<close>

fun join :: "jsstring \<Rightarrow> jsstring list \<Rightarrow> jsstring" where
  "join sep [] = []"
| "join sep [p] = p"
| "join sep (p # q # ps) = p @ sep @ join sep (q # ps)"

definition padStart :: "nat \<Rightarrow> code_unit \<Rightarrow> jsstring \<Rightarrow> jsstring" where
  "padStart n c s = replicate (n - length s) c @ s"

text \<open>The character class \<open>[0-9a-fA-F]\<close> and the value of a digit in it.\<close>

definition is_hex_digit :: "code_unit \<Rightarrow> bool" where
  "is_hex_digit c \<longleftrightarrow>
     (0x30 \<le> c \<and> c \<le> 0x39) \<or> (0x61 \<le> c \<and> c \<le> 0x66) \<or> (0x41 \<le> c \<and> c \<le> 0x46)"

definition hex_digit_value :: "code_unit \<Rightarrow> nat" where
  "hex_digit_value c =
     (if 0x30 \<le> c \<and> c \<le> 0x39 then unat c - 0x30
      else if 0x61 \<le> c \<and> c \<le> 0x66 then unat c - 0x61 + 10
      else unat c - 0x41 + 10)"

text \<open>
  A JavaScript number, as far as this code needs one: an integer, or \<open>NaN\<close> (\<open>None\<close>).
  \<open>parseInt(s, 16)\<close> skips leading white space, a sign and a \<open>0x\<close> prefix, reads the
  longest run of hex digits and gives \<open>NaN\<close> when that run is empty.
\<close>

type_synonym number = "int option"

definition parseInt16 :: "jsstring \<Rightarrow> number" where
  "parseInt16 s =
     (let t = dropWhile is_ws s;
          neg = (t \<noteq> [] \<and> hd t = 0x2D);
          t1 = (if t \<noteq> [] \<and> (hd t = 0x2D \<or> hd t = 0x2B) then tl t else t);
          t2 = (if 2 \<le> length t1 \<and> t1 ! 0 = 0x30 \<and> (t1 ! 1 = 0x78 \<or> t1 ! 1 = 0x58)
                then drop 2 t1 else t1);
          ds = takeWhile is_hex_digit t2;
          n = int (foldl (\<lambda>a d. 16 * a + hex_digit_value d) 0 ds)
      in if ds = [] then None else Some (if neg then - n else n))"

text \<open>
  \<open>String.fromCharCode(...numbers)\<close>: each number modulo \<open>2^16\<close>, \<open>NaN\<close> as 0. The
  limit an engine puts on the number of arguments of one call is not modelled.
\<close>

definition fromCharCode :: "number list \<Rightarrow> jsstring" where
  "fromCharCode ns = map (\<lambda>n. case n of None \<Rightarrow> 0 | Some i \<Rightarrow> word_of_int i) ns"

text \<open>\<open>n.toString(16)\<close> for a non-negative integer.\<close>

definition hex_digit_char :: "nat \<Rightarrow> code_unit" where
  "hex_digit_char d = js ''0123456789abcdef'' ! d"

function toString16 :: "nat \<Rightarrow> jsstring" where
  "toString16 n =
     (if n < 16 then [hex_digit_char n] else toString16 (n div 16) @ [hex_digit_char (n mod 16)])"
  by pat_completeness auto
termination
  by (relation "measure (\<lambda>n. n)") auto

text \<open>The equation of \<open>toString16\<close> unfolds itself, so it is applied by hand only.\<close>

declare toString16.simps [simp del]

text \<open>
  The matches of \<open>/.{1,2}/g\<close>: runs of two characters, or of one where the next one is
  a line terminator or the end; line terminators themselves are skipped.
\<close>

definition is_line_terminator :: "code_unit \<Rightarrow> bool" where
  "is_line_terminator c \<longleftrightarrow> c \<in> set [0x0A, 0x0D, 0x2028, 0x2029]"

fun match_pairs :: "jsstring \<Rightarrow> jsstring list" where
  "match_pairs [] = []"
| "match_pairs [a] = (if is_line_terminator a then [] else [[a]])"
| "match_pairs (a # b # r) =
     (if is_line_terminator a then match_pairs (b # r)
      else if is_line_terminator b then [a] # match_pairs r
      else [a, b] # match_pairs r)"

subsection \<open>Base64\<close>

definition b64_alphabet :: jsstring where
  "b64_alphabet = js ''ABCDEFGHIJKLMNOPQRSTUVWXYZabcdefghijklmnopqrstuvwxyz0123456789+/''"

definition b64_char :: "nat \<Rightarrow> code_unit" where
  "b64_char n = b64_alphabet ! n"

text \<open>The position of a character in the alphabet; 64 when it is not in it.\<close>

definition b64_index :: "code_unit \<Rightarrow> nat" where
  "b64_index c = length (takeWhile (\<lambda>a. a \<noteq> c) b64_alphabet)"

text \<open>
  Three octets make four sextets; one or two octets left over make two or three, the
  last one filled up with zero bits.
\<close>

fun b64_sextets :: "nat list \<Rightarrow> nat list" where
  "b64_sextets (a # b # c # r) =
     [a div 4, (a mod 4) * 16 + b div 16, (b mod 16) * 4 + c div 64, c mod 64] @ b64_sextets r"
| "b64_sextets [a, b] = [a div 4, (a mod 4) * 16 + b div 16, (b mod 16) * 4]"
| "b64_sextets [a] = [a div 4, (a mod 4) * 16]"
| "b64_sextets [] = []"

text \<open>
  Four sextets make three octets; three or two sextets left over make two octets or one,
  the bits beyond them dropped.
\<close>

fun b64_octets :: "nat list \<Rightarrow> nat list" where
  "b64_octets (p # q # r # s # rest) =
     [(p * 4 + q div 16) mod 256, ((q mod 16) * 16 + r div 4) mod 256, ((r mod 4) * 64 + s) mod 256]
       @ b64_octets rest"
| "b64_octets [p, q, r] = [(p * 4 + q div 16) mod 256, ((q mod 16) * 16 + r div 4) mod 256]"
| "b64_octets [p, q] = [(p * 4 + q div 16) mod 256]"
| "b64_octets [p] = []"
| "b64_octets [] = []"

definition b64_pad :: code_unit where
  "b64_pad = 0x3D"

text \<open>
  \<open>btoa(s)\<close>: an \<open>InvalidCharacterError\<close> when a code unit is above \<open>0xFF\<close>, else the
  base64 text of the code units as bytes, padded with \<open>=\<close> to a multiple of four.
\<close>

definition btoa :: "jsstring \<Rightarrow> error + jsstring" where
  "btoa s =
     (if list_ex (\<lambda>c. 0xFF < c) s then Inl InvalidCharacterError
      else Inr (map b64_char (b64_sextets (map unat s))
                @ replicate ((3 - length s mod 3) mod 3) b64_pad))"

text \<open>
  \<open>atob(s)\<close>, the forgiving decoder: ASCII white space is removed; when the length is
  then a multiple of four, one or two \<open>=\<close> at the end are removed; a length of one more
  than a multiple of four, or a character outside the alphabet, is an
  \<open>InvalidCharacterError\<close>; else the characters are decoded.
\<close>

definition is_ascii_ws :: "code_unit \<Rightarrow> bool" where
  "is_ascii_ws c \<longleftrightarrow> c \<in> set [0x09, 0x0A, 0x0C, 0x0D, 0x20]"

definition strip_padding :: "jsstring \<Rightarrow> jsstring" where
  "strip_padding d =
     (if length d mod 4 = 0 then
        (if 2 \<le> length d \<and> drop (length d - 2) d = [b64_pad, b64_pad] then take (length d - 2) d
         else if d \<noteq> [] \<and> last d = b64_pad then butlast d
         else d)
      else d)"

definition atob :: "jsstring \<Rightarrow> error + jsstring" where
  "atob s =
     (let d = strip_padding (filter (\<lambda>c. \<not> is_ascii_ws c) s)
      in if length d mod 4 = 1 then Inl InvalidCharacterError
         else if list_ex (\<lambda>c. 64 \<le> b64_index c) d then Inl InvalidCharacterError
         else Inr (map of_nat (b64_octets (map b64_index d))))"

subsection \<open>UTF-8\<close>

text \<open>
  The code points of a string: a surrogate pair is one code point, a surrogate on its own
  is replaced by \<open>U+FFFD\<close>.
\<close>

definition is_high_surrogate :: "code_unit \<Rightarrow> bool" where
  "is_high_surrogate u \<longleftrightarrow> 0xD800 \<le> u \<and> u \<le> 0xDBFF"

definition is_low_surrogate :: "code_unit \<Rightarrow> bool" where
  "is_low_surrogate u \<longleftrightarrow> 0xDC00 \<le> u \<and> u \<le> 0xDFFF"

fun code_points :: "jsstring \<Rightarrow> nat list" where
  "code_points [] = []"
| "code_points [u] = [if is_high_surrogate u \<or> is_low_surrogate u then 0xFFFD else unat u]"
| "code_points (u # v # r) =
     (if is_high_surrogate u then
        (if is_low_surrogate v
         then (0x10000 + (unat u - 0xD800) * 0x400 + (unat v - 0xDC00)) # code_points r
         else 0xFFFD # code_points (v # r))
      else if is_low_surrogate u then 0xFFFD # code_points (v # r)
      else unat u # code_points (v # r))"

definition utf8_bytes :: "nat \<Rightarrow> byte list" where
  "utf8_bytes cp =
     (if cp < 0x80 then [of_nat cp]
      else if cp < 0x800 then [of_nat (0xC0 + cp div 0x40), of_nat (0x80 + cp mod 0x40)]
      else if cp < 0x10000 then
        [of_nat (0xE0 + cp div 0x1000), of_nat (0x80 + cp div 0x40 mod 0x40),
         of_nat (0x80 + cp mod 0x40)]
      else
        [of_nat (0xF0 + cp div 0x40000), of_nat (0x80 + cp div 0x1000 mod 0x40),
         of_nat (0x80 + cp div 0x40 mod 0x40), of_nat (0x80 + cp mod 0x40)])"

text \<open>\<open>new TextEncoder().encode(s)\<close>.\<close>

definition encoder_encode :: "jsstring \<Rightarrow> byte list" where
  "encoder_encode s = concat (map utf8_bytes (code_points s))"

section \<open>The example application\<close>

text \<open>
  The state of the component: the variables its functions read and write. The activity
  log and the busy flags only feed the display and are left out. An \<open>await\<close> is a call
  that returns; the functions run one after the other.
\<close>

datatype write_mode = Text | Base64 | Hex

record app_state =
  devices :: "BluetoothDevice list"
  activeDeviceId :: "jsstring option"
  subscribedKeys :: "jsstring list"
  acceptAllDevices :: bool
  filterServicesInput :: jsstring
  optionalServicesInput :: jsstring
  filterName :: jsstring
  filterNamePrefix :: jsstring
  scanTimeoutMs :: number
  workingServiceUuid :: jsstring
  workingCharacteristicUuid :: jsstring
  writeValue :: jsstring
  writeMode :: write_mode

record DeviceEventPayload =
  deviceId :: jsstring

text \<open>\<open>value.split(',').map((item) => item.trim()).filter(Boolean)\<close>.\<close>

definition parseList :: "jsstring \<Rightarrow> jsstring list" where
  "parseList v = filter (\<lambda>item. item \<noteq> []) (map trim (split_on 0x2C v))"

text \<open>\<open>ensureDevice\<close>: \<open>null\<close> and the empty string are both falsy.\<close>

definition ensureDevice :: "app_state \<Rightarrow> error + jsstring" where
  "ensureDevice st =
     (case activeDeviceId st of
        None \<Rightarrow> Inl (Error ''Select or request a device first'')
      | Some d \<Rightarrow> if d = [] then Inl (Error ''Select or request a device first'') else Inr d)"

definition refreshDevices ::
  "BluetoothDevice list invoke \<Rightarrow> app_state \<Rightarrow> trace \<Rightarrow> (error + unit) \<times> app_state \<times> trace" where
  "refreshDevices invoke st tr =
     (case getDevices invoke tr of
        (Inl e, tr') \<Rightarrow> (Inl e, st, tr')
      | (Inr result, tr') \<Rightarrow>
          (let st1 = st\<lparr>devices := result\<rparr>;
               st2 = (case activeDeviceId st1 of
                        None \<Rightarrow> st1
                      | Some a \<Rightarrow>
                          if a \<noteq> [] \<and> \<not> list_ex (\<lambda>device. id' device = a) result
                          then st1\<lparr>activeDeviceId := None\<rparr> else st1)
           in (Inr (), st2, tr')))"

definition selectDevice :: "BluetoothDevice \<Rightarrow> app_state \<Rightarrow> app_state" where
  "selectDevice device st = st\<lparr>activeDeviceId := Some (id' device)\<rparr>"

text \<open>\<open>s || undefined\<close> for a string, and \<open>n || undefined\<close> for a number.\<close>

definition str_or_undefined :: "jsstring \<Rightarrow> jsval" where
  "str_or_undefined s = (if s = [] then JUndefined else JStr s)"

definition num_or_undefined :: "number \<Rightarrow> jsval" where
  "num_or_undefined n = (case n of None \<Rightarrow> JUndefined | Some i \<Rightarrow> if i = 0 then JUndefined else JNum i)"

definition list_or_undefined :: "jsstring list \<Rightarrow> jsval" where
  "list_or_undefined xs = (if xs = [] then JUndefined else JArr (map JStr xs))"

definition requestNewDevice ::
  "BluetoothDevice invoke \<Rightarrow> BluetoothDevice list invoke \<Rightarrow> app_state \<Rightarrow> trace
     \<Rightarrow> (error + unit) \<times> app_state \<times> trace" where
  "requestNewDevice invoke_device invoke_devices st tr =
     (let optionalServices = parseList (optionalServicesInput st);
          servicesFilter = parseList (filterServicesInput st);
          hasFilterDetails =
            (servicesFilter \<noteq> [] \<or> trim (filterName st) \<noteq> [] \<or> trim (filterNamePrefix st) \<noteq> []);
          filters =
            (if hasFilterDetails
             then [JObj [(js ''services'', list_or_undefined servicesFilter),
                         (js ''name'', str_or_undefined (filterName st)),
                         (js ''namePrefix'', str_or_undefined (filterNamePrefix st))]]
             else [])
      in if \<not> acceptAllDevices st \<and> filters = []
         then (Inl (Error ''Provide at least one filter or enable \"Accept all devices\"''), st, tr)
         else
           (let baseOptions = [(js ''optionalServices'', list_or_undefined optionalServices),
                               (js ''scanTimeoutMs'', num_or_undefined (scanTimeoutMs st))];
                options = (if acceptAllDevices st
                           then JObj (baseOptions @ [(js ''acceptAllDevices'', JBool True)])
                           else JObj (baseOptions @ [(js ''filters'', JArr filters)]))
            in case requestDevice invoke_device options tr of
                 (Inl e, tr1) \<Rightarrow> (Inl e, st, tr1)
               | (Inr device, tr1) \<Rightarrow> refreshDevices invoke_devices (selectDevice device st) tr1))"

text \<open>
  The first statement of \<open>decodeValue\<close>:
  \<open>Uint8Array.from(atob(value), (char) => char.charCodeAt(0))\<close>.
\<close>

definition decodeBytes :: "jsstring \<Rightarrow> error + byte list" where
  "decodeBytes v = (case atob v of Inl e \<Rightarrow> Inl e | Inr s \<Rightarrow> Inr (map ucast s))"

record decoded =
  utf8 :: jsstring
  hex :: jsstring

text \<open>
  \<open>decodeValue\<close>. The \<open>TextDecoder\<close> is a parameter; when it throws, or when \<open>atob\<close>
  does, the fixed texts of the two \<open>catch\<close> blocks are returned.
\<close>

definition decodeValue :: "(byte list \<Rightarrow> error + jsstring) \<Rightarrow> jsstring \<Rightarrow> decoded" where
  "decodeValue decoder_decode v =
     (case decodeBytes v of
        Inl e \<Rightarrow> \<lparr>utf8 = js ''(decode error)'', hex = []\<rparr>
      | Inr bytes \<Rightarrow>
          \<lparr>utf8 = (case decoder_decode bytes of
                     Inl e \<Rightarrow> js ''(failed to decode as UTF-8)''
                   | Inr t \<Rightarrow> t),
           hex = join (js '' '') (map (\<lambda>byte. padStart 2 0x30 (toString16 (unat byte))) bytes)\<rparr>)"

definition encodeWritePayload :: "app_state \<Rightarrow> error + jsstring" where
  "encodeWritePayload st =
     (let trimmed = trim (writeValue st)
      in if trimmed = [] then Inl (Error ''Provide data before writing'')
         else if writeMode st = Base64 then Inr trimmed
         else if writeMode st = Text then
           (let buffer = encoder_encode trimmed
            in btoa (fromCharCode (map (\<lambda>b. Some (uint b)) buffer)))
         else
           (let sanitized = filter is_hex_digit trimmed
            in if length sanitized = 0 \<or> length sanitized mod 2 \<noteq> 0
               then Inl (Error ''Hex payload must contain an even number of digits'')
               else
                 (let bytes = map parseInt16 (match_pairs sanitized)
                  in if bytes = [] then Inl (Error ''Invalid hex payload'')
                     else btoa (fromCharCode bytes))))"

definition subKey :: "jsstring \<Rightarrow> jsstring \<Rightarrow> jsstring \<Rightarrow> jsstring" where
  "subKey d s c = d @ js ''|'' @ s @ js ''|'' @ c"

definition startNotify ::
  "unit invoke \<Rightarrow> app_state \<Rightarrow> trace \<Rightarrow> (error + unit) \<times> app_state \<times> trace" where
  "startNotify invoke st tr =
     (case ensureDevice st of
        Inl e \<Rightarrow> (Inl e, st, tr)
      | Inr d \<Rightarrow>
          if workingServiceUuid st = [] \<or> workingCharacteristicUuid st = []
          then (Inl (Error ''Set Service and Characteristic before subscribing''), st, tr)
          else
            (case startNotifications invoke d (workingServiceUuid st) (workingCharacteristicUuid st) tr of
               (Inl e, tr') \<Rightarrow> (Inl e, st, tr')
             | (Inr u, tr') \<Rightarrow>
                 (let key = subKey d (workingServiceUuid st) (workingCharacteristicUuid st)
                  in (Inr (),
                      (if key \<in> set (subscribedKeys st) then st
                       else st\<lparr>subscribedKeys := subscribedKeys st @ [key]\<rparr>),
                      tr'))))"

definition stopNotify ::
  "unit invoke \<Rightarrow> app_state \<Rightarrow> trace \<Rightarrow> (error + unit) \<times> app_state \<times> trace" where
  "stopNotify invoke st tr =
     (case ensureDevice st of
        Inl e \<Rightarrow> (Inl e, st, tr)
      | Inr d \<Rightarrow>
          if workingServiceUuid st = [] \<or> workingCharacteristicUuid st = []
          then (Inl (Error ''Set Service and Characteristic before unsubscribing''), st, tr)
          else
            (case stopNotifications invoke d (workingServiceUuid st) (workingCharacteristicUuid st) tr of
               (Inl e, tr') \<Rightarrow> (Inl e, st, tr')
             | (Inr u, tr') \<Rightarrow>
                 (let key = subKey d (workingServiceUuid st) (workingCharacteristicUuid st)
                  in (Inr (),
                      st\<lparr>subscribedKeys := filter (\<lambda>item. item \<noteq> key) (subscribedKeys st)\<rparr>,
                      tr'))))"

definition handleDisconnectEvent :: "DeviceEventPayload \<Rightarrow> app_state \<Rightarrow> app_state" where
  "handleDisconnectEvent payload st =
     (if Some (deviceId payload) = activeDeviceId st
      then st\<lparr>subscribedKeys :=
                filter (\<lambda>key. \<not> startsWith key (deviceId payload @ js ''|'')) (subscribedKeys st)\<rparr>
      else st)"

definition isSubscribed :: "app_state \<Rightarrow> bool" where
  "isSubscribed st =
     (case activeDeviceId st of
        None \<Rightarrow> False
      | Some d \<Rightarrow>
          if d = [] \<or> workingServiceUuid st = [] \<or> workingCharacteristicUuid st = [] then False
          else subKey d (workingServiceUuid st) (workingCharacteristicUuid st)
                 \<in> set (subscribedKeys st))"

text \<open>The state the component starts in: the initial values of its variables.\<close>

definition initial_state :: app_state where
  "initial_state =
     \<lparr>devices = [], activeDeviceId = None, subscribedKeys = [], acceptAllDevices = True,
      filterServicesInput = [], optionalServicesInput = [], filterName = [],
      filterNamePrefix = [], scanTimeoutMs = Some 10000, workingServiceUuid = [],
      workingCharacteristicUuid = [], writeValue = [], writeMode = Text\<rparr>"

section \<open>Sample hosts and devices\<close>

text \<open>
  Concrete hosts and devices on which the statements below are evaluated: a host that
  resolves every notification command, hosts that answer with a device, with a device
  list, with an object carrying \<open>value\<close> and with an empty object.
\<close>

definition device_X :: BluetoothDevice where
  "device_X = \<lparr>id' = js ''X'', name = None, uuids = [], watchingAdvertisements = False,
                connected = True\<rparr>"

definition device_Y :: BluetoothDevice where
  "device_Y = \<lparr>id' = js ''Y'', name = None, uuids = [], watchingAdvertisements = False,
                connected = False\<rparr>"

definition accepting_host :: "unit invoke" where
  "accepting_host command args = Inr ()"

definition device_host :: "BluetoothDevice invoke" where
  "device_host command args = Inr device_X"

definition devices_host :: "BluetoothDevice list invoke" where
  "devices_host command args = Inr [device_Y]"

definition pong_host :: "jsval invoke" where
  "pong_host command args = Inr (JObj [(js ''value'', JStr (js ''pong''))])"

definition empty_host :: "jsval invoke" where
  "empty_host command args = Inr (JObj [])"

section \<open>What the specification expects of a hex payload\<close>

text \<open>
  The specification's reading of a hex string, independent of the code: the bytes are
  the consecutive pairs of hex digits, the first digit of a pair the high half.
\<close>

fun spec_hex_pair_bytes :: "jsstring \<Rightarrow> byte list" where
  "spec_hex_pair_bytes (a # b # r) =
     of_nat (16 * hex_digit_value a + hex_digit_value b) # spec_hex_pair_bytes r"
| "spec_hex_pair_bytes [a] = []"
| "spec_hex_pair_bytes [] = []"

section \<open>Base64 decoding undoes encoding\<close>

lemma takeWhile_neq_nth:
  "distinct xs \<Longrightarrow> n < length xs \<Longrightarrow> length (takeWhile (\<lambda>a. a \<noteq> xs ! n) xs) = n"
proof (induction xs arbitrary: n)
  case Nil
  then show ?case by simp
next
  case (Cons x xs)
  show ?case
  proof (cases n)
    case 0
    then show ?thesis by simp
  next
    case (Suc m)
    with Cons.prems have "xs ! m \<in> set xs" "x \<notin> set xs" by auto
    then have "x \<noteq> xs ! m" by auto
    with Suc Cons show ?thesis by simp
  qed
qed

lemma distinct_b64_alphabet: "distinct b64_alphabet"
  by (simp add: b64_alphabet_def js_def)

lemma length_b64_alphabet: "length b64_alphabet = 64"
  by (simp add: b64_alphabet_def js_def)

lemma b64_index_char: "n < 64 \<Longrightarrow> b64_index (b64_char n) = n"
  unfolding b64_index_def b64_char_def
  by (rule takeWhile_neq_nth) (simp_all add: distinct_b64_alphabet length_b64_alphabet)

lemma b64_char_in_alphabet: "n < 64 \<Longrightarrow> b64_char n \<in> set b64_alphabet"
  by (simp add: b64_char_def length_b64_alphabet)

lemma b64_pad_not_in_alphabet: "b64_pad \<notin> set b64_alphabet"
  by (simp add: b64_alphabet_def js_def b64_pad_def)

lemma b64_alphabet_not_ws: "c \<in> set b64_alphabet \<Longrightarrow> \<not> is_ascii_ws c"
  by (auto simp add: b64_alphabet_def js_def is_ascii_ws_def)

lemma b64_sextets_bound:
  "\<forall>x \<in> set xs. x < 256 \<Longrightarrow> \<forall>s \<in> set (b64_sextets xs). s < 64"
proof (induction xs rule: b64_sextets.induct)
  case (1 a b c r)
  then show ?case by (auto simp: div_less_iff_less_mult)
qed (auto simp: div_less_iff_less_mult)

lemma b64_octets_sextets:
  "\<forall>x \<in> set xs. x < 256 \<Longrightarrow> b64_octets (b64_sextets xs) = xs"
proof (induction xs rule: b64_sextets.induct)
  case (1 a b c r)
  then show ?case by (auto simp: div_less_iff_less_mult)
qed (auto simp: div_less_iff_less_mult)

lemma length_b64_sextets: "length (b64_sextets xs) = (4 * length xs + 2) div 3"
  by (induction xs rule: b64_sextets.induct) auto





lemma b64_length_facts:
  fixes n :: nat
  shows "((4 * n + 2) div 3 + (3 - n mod 3) mod 3) mod 4 = 0"
    and "(4 * n + 2) div 3 mod 4 \<noteq> 1"
proof -
  define k r where "k = n div 3" and "r = n mod 3"
  have n: "n = 3 * k + r" and r: "r < 3" by (simp_all add: k_def r_def)
  have d: "(4 * n + 2) div 3 = 4 * k + (4 * r + 2) div 3"
    unfolding n by simp
  have m: "n mod 3 = r" by (simp add: r_def)
  consider "r = 0" | "r = 1" | "r = 2" using r by linarith
  then have "((4 * n + 2) div 3 + (3 - n mod 3) mod 3) mod 4 = 0 \<and> (4 * n + 2) div 3 mod 4 \<noteq> 1"
    unfolding d m by cases (simp_all del: add_2_eq_Suc add_2_eq_Suc' add: mod_Suc)
  then show "((4 * n + 2) div 3 + (3 - n mod 3) mod 3) mod 4 = 0"
    and "(4 * n + 2) div 3 mod 4 \<noteq> 1" by simp_all
qed

lemma strip_padding_encoded:
  assumes "b64_pad \<notin> set cs" and "p \<le> 2" and "(length cs + p) mod 4 = 0"
  shows "strip_padding (cs @ replicate p b64_pad) = cs"
proof -
  consider "p = 0" | "p = 1" | "p = 2" using assms(2) by linarith
  then show ?thesis
  proof cases
    case 1
    show ?thesis
    proof (cases "cs = []")
      case True
      with 1 show ?thesis by (simp add: strip_padding_def)
    next
      case False
      then have l: "last cs \<in> set cs" by simp
      then have "last cs \<noteq> b64_pad" using assms(1) by auto
      moreover have "drop (length cs - 2) cs \<noteq> [b64_pad, b64_pad]"
      proof
        assume "drop (length cs - 2) cs = [b64_pad, b64_pad]"
        then have "b64_pad \<in> set (drop (length cs - 2) cs)" by simp
        then show False using assms(1) by (meson in_set_dropD)
      qed
      ultimately show ?thesis using 1 by (simp add: strip_padding_def)
    qed
  next
    case 2
    have ne: "cs \<noteq> []" using assms(3) 2 by auto
    then have "last cs \<in> set cs" by simp
    then have lp: "last cs \<noteq> b64_pad" using assms(1) by auto
    have "drop (length cs - 1) cs = [last cs]"
      using ne by (metis One_nat_def append_butlast_last_id append_eq_conv_conj length_butlast)
    then have "drop (length cs + 1 - 2) (cs @ [b64_pad]) \<noteq> [b64_pad, b64_pad]"
      using lp ne by simp
    then show ?thesis using 2 assms(3) by (simp add: strip_padding_def)
  next
    case 3
    have "replicate p b64_pad = [b64_pad, b64_pad]" using 3 by (simp add: numeral_2_eq_2)
    then show ?thesis using assms(3) 3 by (simp add: strip_padding_def)
  qed
qed


lemma atob_btoa:
  assumes "\<forall>c \<in> set s. c \<le> 0xFF"
  shows "\<exists>v. btoa s = Inr v \<and> atob v = Inr s"
proof -
  define xs where "xs = map unat s"
  define cs where "cs = map b64_char (b64_sextets xs)"
  define p where "p = (3 - length s mod 3) mod 3"
  have bound: "\<forall>x \<in> set xs. x < 256"
    using assms by (auto simp: xs_def word_le_nat_alt word_less_nat_alt)
  have sext: "\<forall>x \<in> set (b64_sextets xs). x < 64"
    using bound by (rule b64_sextets_bound)
  have enc: "btoa s = Inr (cs @ replicate p b64_pad)"
    using assms by (auto simp: btoa_def list_ex_iff cs_def xs_def p_def not_less)
  have in_alpha: "set cs \<subseteq> set b64_alphabet"
    using sext by (auto simp: cs_def b64_char_in_alphabet)
  have nopad: "b64_pad \<notin> set cs"
    using in_alpha b64_pad_not_in_alphabet by auto
  have nows: "filter (\<lambda>c. \<not> is_ascii_ws c) (cs @ replicate p b64_pad) = cs @ replicate p b64_pad"
    using in_alpha b64_alphabet_not_ws by (auto simp: filter_id_conv is_ascii_ws_def b64_pad_def)
  have len: "length cs = (4 * length s + 2) div 3"
    by (simp add: cs_def length_b64_sextets xs_def)
  have strip: "strip_padding (cs @ replicate p b64_pad) = cs"
  proof (rule strip_padding_encoded[OF nopad])
    show "p \<le> 2" by (simp add: p_def)
    show "(length cs + p) mod 4 = 0" unfolding len p_def by (rule b64_length_facts(1))
  qed
  have idx: "map b64_index cs = b64_sextets xs"
    using sext by (simp add: cs_def map_idI b64_index_char)
  have noex: "\<not> list_ex (\<lambda>c. 64 \<le> b64_index c) cs"
    using sext by (auto simp: list_ex_iff cs_def b64_index_char)
  have l1: "length cs mod 4 \<noteq> 1"
    unfolding len by (rule b64_length_facts(2))
  have "atob (cs @ replicate p b64_pad) = Inr (map of_nat (b64_octets (b64_sextets xs)))"
    unfolding atob_def nows strip Let_def idx using l1 noex by simp
  also have "\<dots> = Inr s"
    unfolding b64_octets_sextets[OF bound] by (simp add: xs_def comp_def)
  finally show ?thesis using enc by simp
qed




lemma fromCharCode_bytes: "fromCharCode (map (\<lambda>b. Some (uint b)) bs) = map ucast bs"
  by (simp add: fromCharCode_def comp_def)

lemma ucast_byte_le: "(ucast (b :: byte) :: code_unit) \<le> 0xFF"
proof -
  have "unat (ucast b :: code_unit) = unat b"
    by (simp add: unsigned_ucast_eq take_bit_nat_eq_self unsigned_less[of b, simplified] order_less_trans[OF unsigned_less])
  moreover have "unat b < 256" using unsigned_less[of b] by simp
  ultimately show ?thesis by (simp add: word_le_nat_alt)
qed

lemma ucast_byte_roundtrip: "(ucast (ucast (b :: byte) :: code_unit) :: byte) = b"
  by (rule ucast_up_ucast_id) (simp add: is_up)

lemma decodeBytes_btoa:
  "\<exists>v. btoa (map ucast (bs :: byte list)) = Inr v \<and> decodeBytes v = Inr bs"
proof -
  have "\<forall>c \<in> set (map ucast bs :: jsstring). c \<le> 0xFF"
    by (auto simp: ucast_byte_le)
  from atob_btoa[OF this] obtain v
    where v: "btoa (map ucast bs) = Inr v" "atob v = Inr (map ucast bs)" by blast
  have "decodeBytes v = Inr bs"
    by (simp add: decodeBytes_def v comp_def ucast_byte_roundtrip)
  with v show ?thesis by blast
qed

section \<open>Hex digits, trimming and the hex write path\<close>

lemma hex_digit_facts:
  assumes "is_hex_digit c"
  shows "\<not> is_ws c" and "\<not> is_line_terminator c" and "c \<noteq> 0x2D" and "c \<noteq> 0x2B"
    and "c \<noteq> 0x78" and "c \<noteq> 0x58" and "hex_digit_value c < 16"
  using assms
  by (auto simp: is_hex_digit_def is_ws_def is_line_terminator_def hex_digit_value_def
      word_le_nat_alt)


lemma trim_id:
  assumes "s \<noteq> [] \<Longrightarrow> \<not> is_ws (hd s) \<and> \<not> is_ws (last s)"
  shows "trim s = s"
proof (cases s)
  case Nil
  then show ?thesis by (simp add: trim_def)
next
  case (Cons a r)
  with assms have h: "\<not> is_ws a" and l: "\<not> is_ws (last s)" by auto
  have 1: "dropWhile is_ws s = s" using Cons h by simp
  have "rev s \<noteq> []" using Cons by simp
  moreover have "hd (rev s) = last s" using Cons by (simp add: hd_rev)
  ultimately have "dropWhile is_ws (rev s) = rev s" using l by (simp add: dropWhile_eq_self_iff)
  with 1 show ?thesis by (simp add: trim_def)
qed

lemma trim_hex:
  assumes "list_all is_hex_digit h"
  shows "trim h = h"
proof (rule trim_id)
  assume "h \<noteq> []"
  then have "hd h \<in> set h" "last h \<in> set h" by simp_all
  then show "\<not> is_ws (hd h) \<and> \<not> is_ws (last h)"
    using assms hex_digit_facts(1) by (auto simp: list_all_iff)
qed

lemma parseInt16_pair:
  assumes "is_hex_digit a" and "is_hex_digit b"
  shows "parseInt16 [a, b] = Some (int (16 * hex_digit_value a + hex_digit_value b))"
  using assms hex_digit_facts[OF assms(1)] hex_digit_facts[OF assms(2)]
  by (simp add: parseInt16_def Let_def)

lemma code_unit_of_small:
  assumes "n < 256"
  shows "(word_of_int (int n) :: code_unit) = ucast (of_nat n :: byte)"
  using assms by (simp add: unsigned_of_nat take_bit_nat_eq_self)


lemma match_pairs_hex:
  assumes "list_all is_hex_digit h" and "even (length h)"
  shows "fromCharCode (map parseInt16 (match_pairs h)) = map ucast (spec_hex_pair_bytes h)"
  using assms
proof (induction h rule: spec_hex_pair_bytes.induct)
  case (1 a b r)
  then have a: "is_hex_digit a" and b: "is_hex_digit b" by simp_all
  have n: "16 * hex_digit_value a + hex_digit_value b < 256"
    using hex_digit_facts(7)[OF a] hex_digit_facts(7)[OF b] by linarith
  have IH: "fromCharCode (map parseInt16 (match_pairs r)) = map ucast (spec_hex_pair_bytes r)"
    using 1 by simp
  have m: "match_pairs (a # b # r) = [a, b] # match_pairs r"
    using hex_digit_facts(2)[OF a] hex_digit_facts(2)[OF b] by simp
  have e: "fromCharCode [parseInt16 [a, b]]
             = [ucast (of_nat (16 * hex_digit_value a + hex_digit_value b) :: byte)]"
    unfolding parseInt16_pair[OF a b] fromCharCode_def
    using code_unit_of_small[OF n] by (simp only: list.map option.case)
  have step: "fromCharCode (map parseInt16 ([a, b] # match_pairs r))
                = fromCharCode [parseInt16 [a, b]] @ fromCharCode (map parseInt16 (match_pairs r))"
    by (simp add: fromCharCode_def)
  show ?case
    unfolding m step e IH by simp
qed (simp_all add: fromCharCode_def)

lemma match_pairs_hex_nonempty:
  assumes "list_all is_hex_digit h" and "h \<noteq> []"
  shows "match_pairs h \<noteq> []"
  using assms hex_digit_facts(2)
  by (cases h rule: match_pairs.cases) (auto)

lemma encode_hex:
  assumes "writeMode st = Hex"
    and "trim (writeValue st) \<noteq> []"
    and "filter is_hex_digit (trim (writeValue st)) = h"
    and "h \<noteq> []" and "even (length h)"
  shows "\<exists>p. encodeWritePayload st = Inr p \<and> decodeBytes p = Inr (spec_hex_pair_bytes h)"
proof -
  have hex: "list_all is_hex_digit h"
    using assms(3) by (auto simp: list_all_iff)
  obtain p where p: "btoa (map ucast (spec_hex_pair_bytes h)) = Inr p"
    "decodeBytes p = Inr (spec_hex_pair_bytes h)"
    using decodeBytes_btoa by blast
  have "encodeWritePayload st = btoa (fromCharCode (map parseInt16 (match_pairs h)))"
    using assms match_pairs_hex_nonempty[OF hex assms(4)]
    by (simp add: encodeWritePayload_def Let_def)
  with p show ?thesis by (simp add: match_pairs_hex[OF hex assms(5)])
qed

section \<open>The hex text of a byte sequence\<close>

lemma hex_digit_char_table:
  "\<forall>d \<in> set [0..<16]. is_hex_digit (hex_digit_char d) \<and> hex_digit_value (hex_digit_char d) = d"
  by code_simp

lemma hex_digit_char_facts:
  assumes "d < 16"
  shows "is_hex_digit (hex_digit_char d)" and "hex_digit_value (hex_digit_char d) = d"
proof -
  have "d \<in> set [0..<16]" using assms by simp
  with hex_digit_char_table show "is_hex_digit (hex_digit_char d)"
    and "hex_digit_value (hex_digit_char d) = d" by blast+
qed

lemma hex_digit_char_0: "hex_digit_char 0 = 0x30"
  by (simp add: hex_digit_char_def js_def)

lemma hex_pair_of_byte:
  "padStart 2 0x30 (toString16 (unat (b :: byte)))
     = [hex_digit_char (unat b div 16), hex_digit_char (unat b mod 16)]"
proof -
  have n: "unat b < 256" using unsigned_less[of b] by simp
  show ?thesis
  proof (cases "unat b < 16")
    case True
    then have "toString16 (unat b) = [hex_digit_char (unat b)]"
      by (subst toString16.simps) simp
    with True show ?thesis by (simp add: padStart_def hex_digit_char_0)
  next
    case False
    have "unat b div 16 < 16" using n by simp
    then have "toString16 (unat b div 16) = [hex_digit_char (unat b div 16)]"
      by (subst toString16.simps) simp
    with False have "toString16 (unat b) = [hex_digit_char (unat b div 16), hex_digit_char (unat b mod 16)]"
      by (subst toString16.simps) simp
    then show ?thesis by (simp add: padStart_def)
  qed
qed


lemma join_nonempty: "ps \<noteq> [] \<Longrightarrow> \<forall>p \<in> set ps. p \<noteq> [] \<Longrightarrow> join sep ps \<noteq> []"
  by (induction sep ps rule: join.induct) auto

lemma join_ends:
  assumes "ps \<noteq> []" and "\<forall>p \<in> set ps. p \<noteq> [] \<and> P (hd p) \<and> P (last p)"
  shows "P (hd (join sep ps)) \<and> P (last (join sep ps))"
  using assms
proof (induction sep ps rule: join.induct)
  case (3 sep p q ps)
  then have "join sep (q # ps) \<noteq> []" by (intro join_nonempty) auto
  with 3 show ?case by auto
qed auto

lemma filter_hex_join:
  assumes "\<forall>p \<in> set ps. list_all is_hex_digit p"
  shows "filter is_hex_digit (join (js '' '') ps) = concat ps"
  using assms
proof (induction "js '' ''" ps rule: join.induct)
  case (3 p q ps)
  have "filter is_hex_digit (js '' '') = []" by (simp add: js_def is_hex_digit_def)
  with 3 show ?case by (simp add: list_all_iff filter_id_conv)
qed (auto simp: list_all_iff filter_id_conv)

lemma spec_hex_pair_bytes_of_hex_text:
  "spec_hex_pair_bytes
     (concat (map (\<lambda>byte. padStart 2 0x30 (toString16 (unat byte))) (bytes :: byte list))) = bytes"
proof (induction bytes)
  case Nil
  then show ?case by simp
next
  case (Cons b bs)
  have "unat b < 256" using unsigned_less[of b] by simp
  then have hi: "unat b div 16 < 16" by simp
  have lo: "unat b mod 16 < 16" by simp
  have e: "(of_nat (16 * hex_digit_value (hex_digit_char (unat b div 16))
                 + hex_digit_value (hex_digit_char (unat b mod 16))) :: byte) = b"
    unfolding hex_digit_char_facts(2)[OF hi] hex_digit_char_facts(2)[OF lo] by simp
  have c: "concat (map (\<lambda>byte. padStart 2 0x30 (toString16 (unat byte))) (b # bs))
             = hex_digit_char (unat b div 16) # hex_digit_char (unat b mod 16)
               # concat (map (\<lambda>byte. padStart 2 0x30 (toString16 (unat byte))) bs)"
    by (simp add: hex_pair_of_byte)
  show ?case
    unfolding c spec_hex_pair_bytes.simps e Cons.IH by (rule refl)
qed

lemma encode_hex_fails:
  assumes "writeMode st = Hex"
    and "trim (writeValue st) = [] \<or> filter is_hex_digit (trim (writeValue st)) = []
         \<or> odd (length (filter is_hex_digit (trim (writeValue st))))"
  shows "\<exists>e. encodeWritePayload st = Inl e"
  using assms by (auto simp: encodeWritePayload_def Let_def odd_iff_mod_2_eq_one)

section \<open>Command strings and key prefixes\<close>

lemma ping_command: "js ''plugin:web-bluetooth'' @ js ''|'' @ js ''ping'' = js ''plugin:web-bluetooth|ping''"
  by (simp add: js_def)

lemma get_devices_command:
  "js ''plugin:web-bluetooth'' @ js ''|'' @ js ''get_devices'' = js ''plugin:web-bluetooth|get_devices''"
  by (simp add: js_def)

lemma request_device_command:
  "js ''plugin:web-bluetooth'' @ js ''|'' @ js ''request_device'' = js ''plugin:web-bluetooth|request_device''"
  by (simp add: js_def)

lemma startsWith_append: "startsWith (p @ r) p"
  by (simp add: startsWith_def)

section \<open>Properties of the invocation layer\<close>

text \<open>
  C6. For every command name \<open>c\<close> and every payload \<open>p\<close>, \<open>call\<close> invokes the host once,
  with the command string \<open>plugin:web-bluetooth|c\<close> and the payload \<open>p\<close> unchanged; with
  the payload left out it sends the empty object. The result is the host's own.
\<close>

theorem call_sends_namespaced_command:
  "call invoke c (Some p) tr =
     (invoke (js ''plugin:web-bluetooth'' @ js ''|'' @ c) (JObj p),
      tr @ [(js ''plugin:web-bluetooth'' @ js ''|'' @ c, JObj p)])
   \<and> call invoke c None tr =
     (invoke (js ''plugin:web-bluetooth'' @ js ''|'' @ c) (JObj []),
      tr @ [(js ''plugin:web-bluetooth'' @ js ''|'' @ c, JObj [])])"
  by (simp add: call_def NAMESPACE_def Let_def)

text \<open>
  C10. For every string \<open>v\<close>, \<open>ping(v)\<close> invokes the command \<open>ping\<close> with the payload
  \<open>{ payload: { value: v } }\<close>. When the response object has a field \<open>value\<close> that is
  neither \<open>null\<close> nor \<open>undefined\<close>, that value is returned; when it has no such field,
  or \<open>null\<close> in it, the result is \<open>null\<close>, which is a value and not a failure.
\<close>

theorem ping_returns_value_or_null:
  "snd (ping invoke v tr)
     = tr @ [(js ''plugin:web-bluetooth|ping'', JObj [(js ''payload'', JObj [(js ''value'', JStr v)])])]
   \<and> (\<forall>fields. invoke (js ''plugin:web-bluetooth|ping'')
                    (JObj [(js ''payload'', JObj [(js ''value'', JStr v)])]) = Inr (JObj fields)
        \<longrightarrow> (\<forall>x. map_of fields (js ''value'') = Some x \<and> x \<noteq> JNull \<and> x \<noteq> JUndefined
                 \<longrightarrow> fst (ping invoke v tr) = Inr x)
          \<and> (map_of fields (js ''value'') = None \<longrightarrow> fst (ping invoke v tr) = Inr JNull)
          \<and> (map_of fields (js ''value'') = Some JNull \<longrightarrow> fst (ping invoke v tr) = Inr JNull))"
proof -
  have c: "call invoke (js ''ping'') (Some [(js ''payload'', JObj [(js ''value'', JStr v)])]) tr
      = (invoke (js ''plugin:web-bluetooth|ping'') (JObj [(js ''payload'', JObj [(js ''value'', JStr v)])]),
         tr @ [(js ''plugin:web-bluetooth|ping'', JObj [(js ''payload'', JObj [(js ''value'', JStr v)])])])"
    by (simp add: call_def NAMESPACE_def Let_def ping_command)
  show ?thesis
    unfolding ping_def c
    by (auto simp: get_prop_def nullish_def split: sum.splits jsval.splits option.splits)
qed

text \<open>A host that answers \<open>pong\<close>, and one that answers with no field.\<close>

theorem ping_returns_value_or_null_witness:
  "fst (ping pong_host (js ''hi'') []) = Inr (JStr (js ''pong''))
   \<and> fst (ping empty_host (js ''hi'') []) = Inr JNull"
proof -
  have 1: "map_of [(js ''value'', JStr (js ''pong''))] (js ''value'') = Some (JStr (js ''pong''))"
    by simp
  from ping_returns_value_or_null[of pong_host "js ''hi''" "[]"]
    ping_returns_value_or_null[of empty_host "js ''hi''" "[]"] 1
  show ?thesis by (simp add: pong_host_def empty_host_def)
qed

text \<open>
  C1, as amended. \<open>requestDevice\<close> does not look at its options: for every options
  value it invokes \<open>request_device\<close> with \<open>{ options }\<close> and returns what the host returns.
  The check is in the example application: with "accept all devices" off and no filter
  detail entered (no service, no name, no name prefix, after trimming),
  \<open>requestNewDevice\<close> fails with an \<open>Error\<close> of a fixed message and leaves the state
  and the trace as they were, so nothing is invoked.
\<close>

theorem requestNewDevice_guards_before_invoking:
  "requestDevice invoke options tr
     = (invoke (js ''plugin:web-bluetooth|request_device'') (JObj [(js ''options'', options)]),
        tr @ [(js ''plugin:web-bluetooth|request_device'', JObj [(js ''options'', options)])])
   \<and> (\<not> acceptAllDevices st \<and> parseList (filterServicesInput st) = []
        \<and> trim (filterName st) = [] \<and> trim (filterNamePrefix st) = []
      \<longrightarrow> requestNewDevice invoke_device invoke_devices st tr
            = (Inl (Error ''Provide at least one filter or enable \"Accept all devices\"''), st, tr))"
  by (simp add: requestDevice_def call_def NAMESPACE_def Let_def request_device_command
      requestNewDevice_def)

text \<open>The initial state with the check box cleared.\<close>

theorem requestNewDevice_guards_before_invoking_witness:
  "requestNewDevice device_host devices_host (initial_state\<lparr>acceptAllDevices := False\<rparr>) []
     = (Inl (Error ''Provide at least one filter or enable \"Accept all devices\"''),
        initial_state\<lparr>acceptAllDevices := False\<rparr>, [])"
proof -
  let ?st = "initial_state\<lparr>acceptAllDevices := False\<rparr>"
  have "\<not> acceptAllDevices ?st \<and> parseList (filterServicesInput ?st) = []
        \<and> trim (filterName ?st) = [] \<and> trim (filterNamePrefix ?st) = []"
    by code_simp
  with requestNewDevice_guards_before_invoking
         [where st = ?st and tr = "[]" and invoke_device = device_host
            and invoke_devices = devices_host]
  show ?thesis by blast
qed

text \<open>
  C1 as it was stated fails on the binding: called with \<open>acceptAllDevices\<close> false and
  an empty \<open>filters\<close>, \<open>requestDevice\<close> reaches the host, and returns the device the host
  answers with.
\<close>

theorem requestDevice_forwards_unchecked_counterexample:
  "requestDevice device_host (JObj [(js ''acceptAllDevices'', JBool False), (js ''filters'', JArr [])]) []
     = (Inr device_X,
        [(js ''plugin:web-bluetooth|request_device'',
          JObj [(js ''options'',
                 JObj [(js ''acceptAllDevices'', JBool False), (js ''filters'', JArr [])])])])"
  by (simp add: requestDevice_def call_def NAMESPACE_def Let_def request_device_command device_host_def)

section \<open>Properties of the value codec\<close>

text \<open>
  C2, as amended. For every non-empty byte sequence, written as the hex text that
  \<open>decodeValue\<close> displays (two digits a byte, separated by spaces), the write path in
  hex mode produces a payload, and \<open>decodeValue\<close> on that payload decodes exactly those
  bytes: it does not take its error branch, and its hex rendering is the text that was
  written. The empty sequence has no encoding: no payload of the hex write path decodes
  to it.
\<close>

theorem hex_write_path_roundtrip:
  "(bytes \<noteq> [] \<and> writeMode st = Hex
      \<and> writeValue st = join (js '' '') (map (\<lambda>byte. padStart 2 0x30 (toString16 (unat byte))) bytes)
    \<longrightarrow> (\<exists>p. encodeWritePayload st = Inr p
             \<and> decodeBytes p = Inr bytes
             \<and> decodeValue decoder_decode p =
                 \<lparr>utf8 = (case decoder_decode bytes of
                            Inl e \<Rightarrow> js ''(failed to decode as UTF-8)''
                          | Inr t \<Rightarrow> t),
                  hex = writeValue st\<rparr>))
   \<and> (writeMode st = Hex \<and> encodeWritePayload st = Inr q \<longrightarrow> decodeBytes q \<noteq> Inr [])"
proof -
  let ?pair = "\<lambda>byte :: byte. padStart 2 0x30 (toString16 (unat byte))"
  have forward: "\<exists>p. encodeWritePayload st = Inr p \<and> decodeBytes p = Inr bytes
             \<and> decodeValue decoder_decode p =
                 \<lparr>utf8 = (case decoder_decode bytes of
                            Inl e \<Rightarrow> js ''(failed to decode as UTF-8)''
                          | Inr t \<Rightarrow> t),
                  hex = writeValue st\<rparr>"
    if ne: "bytes \<noteq> []" and m: "writeMode st = Hex"
      and v: "writeValue st = join (js '' '') (map ?pair bytes)"
  proof -
    have digits: "list_all is_hex_digit (?pair b)" for b
    proof -
      have "unat b < 256" using unsigned_less[of b] by simp
      then have "unat b div 16 < 16" "unat b mod 16 < 16" by simp_all
      then show ?thesis by (simp add: hex_pair_of_byte hex_digit_char_facts(1))
    qed
    have ends: "\<forall>p \<in> set (map ?pair bytes). p \<noteq> [] \<and> \<not> is_ws (hd p) \<and> \<not> is_ws (last p)"
    proof
      fix p assume "p \<in> set (map ?pair bytes)"
      then obtain b where p: "p = ?pair b" by auto
      have "p \<noteq> []" "hd p \<in> set p" "last p \<in> set p"
        by (simp_all add: p hex_pair_of_byte)
      then show "p \<noteq> [] \<and> \<not> is_ws (hd p) \<and> \<not> is_ws (last p)"
        using digits[of b] hex_digit_facts(1) by (auto simp: p list_all_iff)
    qed
    define w where "w = join (js '' '') (map ?pair bytes)"
    have vw: "writeValue st = w" by (simp only: v w_def)
    have "\<not> is_ws (hd w) \<and> \<not> is_ws (last w)"
      unfolding w_def using ne by (intro join_ends[OF _ ends]) simp
    then have t: "trim w = w" by (intro trim_id) simp
    have wne: "w \<noteq> []"
      unfolding w_def using ne ends by (intro join_nonempty) auto
    have wf: "filter is_hex_digit w = concat (map ?pair bytes)"
      unfolding w_def using digits by (intro filter_hex_join) auto
    have nonempty: "trim (writeValue st) \<noteq> []"
      unfolding vw t by (rule wne)
    have f: "filter is_hex_digit (trim (writeValue st)) = concat (map ?pair bytes)"
      unfolding vw t by (rule wf)
    have c: "concat (map ?pair bytes) \<noteq> []"
      using ne by (cases bytes) (simp_all add: hex_pair_of_byte)
    have "length (concat (map ?pair bytes)) = 2 * length bytes"
      by (induction bytes) (simp_all add: hex_pair_of_byte)
    then have e: "even (length (concat (map ?pair bytes)))" by simp
    from encode_hex[OF m nonempty f c e] obtain p
      where p: "encodeWritePayload st = Inr p"
        "decodeBytes p = Inr (spec_hex_pair_bytes (concat (map ?pair bytes)))" by blast
    then have d: "decodeBytes p = Inr bytes"
      by (simp only: spec_hex_pair_bytes_of_hex_text)
    have "decodeValue decoder_decode p =
                 \<lparr>utf8 = (case decoder_decode bytes of
                            Inl e \<Rightarrow> js ''(failed to decode as UTF-8)''
                          | Inr t \<Rightarrow> t),
                  hex = writeValue st\<rparr>"
      by (simp add: decodeValue_def d v)
    with p(1) d show ?thesis by blast
  qed
  have never_empty: "decodeBytes q \<noteq> Inr []"
    if m: "writeMode st = Hex" and q: "encodeWritePayload st = Inr q"
  proof -
    define h where "h = filter is_hex_digit (trim (writeValue st))"
    have ok: "trim (writeValue st) \<noteq> []" "h \<noteq> []" "even (length h)"
      using encode_hex_fails[OF m] q unfolding h_def by auto
    from encode_hex[OF m ok(1) h_def[symmetric] ok(2) ok(3)] q
    have d: "decodeBytes q = Inr (spec_hex_pair_bytes h)" by auto
    obtain a b r where "h = a # b # r"
      using ok(2) ok(3) by (cases h rule: spec_hex_pair_bytes.cases) auto
    then show ?thesis by (simp add: d)
  qed
  from forward never_empty show ?thesis by blast
qed

text \<open>The bytes \<open>a1 0f\<close>.\<close>

theorem hex_write_path_roundtrip_witness:
  "\<exists>p. encodeWritePayload (initial_state\<lparr>writeValue := js ''a1 0f'', writeMode := Hex\<rparr>) = Inr p
       \<and> decodeBytes p = Inr [0xA1, 0x0F]"
proof -
  let ?st = "initial_state\<lparr>writeValue := js ''a1 0f'', writeMode := Hex\<rparr>"
  have 1: "[0xA1, 0x0F] \<noteq> ([] :: byte list) \<and> writeMode ?st = Hex
      \<and> writeValue ?st
          = join (js '' '') (map (\<lambda>byte. padStart 2 0x30 (toString16 (unat byte))) [0xA1, 0x0F :: byte])"
    by code_simp
  from hex_write_path_roundtrip[where bytes = "[0xA1, 0x0F]" and st = ?st] 1
  show ?thesis by blast
qed

text \<open>
  C2 as it was stated fails at the empty sequence: its hex text, its UTF-8 text and its
  base64 text are all the empty string, and the write path rejects the empty string in
  every mode.
\<close>

theorem write_path_rejects_empty_input_counterexample:
  "encodeWritePayload (initial_state\<lparr>writeValue := [], writeMode := Hex\<rparr>)
     = Inl (Error ''Provide data before writing'')
   \<and> encodeWritePayload (initial_state\<lparr>writeValue := [], writeMode := Text\<rparr>)
     = Inl (Error ''Provide data before writing'')
   \<and> encodeWritePayload (initial_state\<lparr>writeValue := [], writeMode := Base64\<rparr>)
     = Inl (Error ''Provide data before writing'')"
  by code_simp

text \<open>
  C5. The hex payload \<open>a1\<close> is encoded to a base64 string that decodes to the single byte
  \<open>0xA1\<close>. For every string of hex digits of even length, whatever payload is produced
  decodes to the bytes of the consecutive digit pairs, and one is produced unless the
  string is empty.
\<close>

theorem hex_payload_decodes_to_digit_pairs:
  "(\<exists>p. encodeWritePayload (initial_state\<lparr>writeValue := js ''a1'', writeMode := Hex\<rparr>) = Inr p
        \<and> decodeBytes p = Inr [0xA1])
   \<and> (writeMode st = Hex \<and> list_all is_hex_digit (writeValue st) \<and> even (length (writeValue st))
        \<longrightarrow> (writeValue st \<noteq> [] \<longrightarrow> (\<exists>p. encodeWritePayload st = Inr p))
          \<and> (\<forall>p. encodeWritePayload st = Inr p
                 \<longrightarrow> decodeBytes p = Inr (spec_hex_pair_bytes (writeValue st))))"
proof -
  have general: "(writeValue s \<noteq> [] \<longrightarrow> (\<exists>p. encodeWritePayload s = Inr p))
          \<and> (\<forall>p. encodeWritePayload s = Inr p
                 \<longrightarrow> decodeBytes p = Inr (spec_hex_pair_bytes (writeValue s)))"
    if m: "writeMode s = Hex" and h: "list_all is_hex_digit (writeValue s)"
      and e: "even (length (writeValue s))" for s
  proof (cases "writeValue s = []")
    case True
    then show ?thesis by (simp add: encodeWritePayload_def trim_def)
  next
    case False
    have t: "trim (writeValue s) = writeValue s" by (rule trim_hex[OF h])
    have f: "filter is_hex_digit (trim (writeValue s)) = writeValue s"
      using h by (simp add: t list_all_iff)
    from encode_hex[OF m _ f False e] False t show ?thesis by auto
  qed
  let ?a1 = "initial_state\<lparr>writeValue := js ''a1'', writeMode := Hex\<rparr>"
  have "writeMode ?a1 = Hex" by simp
  moreover have "list_all is_hex_digit (writeValue ?a1)"
    by (simp add: js_def is_hex_digit_def)
  moreover have "even (length (writeValue ?a1))" by (simp add: js_def)
  ultimately have a1: "(writeValue ?a1 \<noteq> [] \<longrightarrow> (\<exists>p. encodeWritePayload ?a1 = Inr p))
          \<and> (\<forall>p. encodeWritePayload ?a1 = Inr p
                 \<longrightarrow> decodeBytes p = Inr (spec_hex_pair_bytes (writeValue ?a1)))"
    by (rule general)
  have "spec_hex_pair_bytes (writeValue ?a1) = [0xA1]"
    by (simp add: js_def hex_digit_value_def)
  moreover have "writeValue ?a1 \<noteq> []" by (simp add: js_def)
  ultimately have "\<exists>p. encodeWritePayload ?a1 = Inr p \<and> decodeBytes p = Inr [0xA1]"
    using a1 by metis
  then show ?thesis using general by blast
qed

text \<open>Two bytes, with digits of both cases.\<close>

theorem hex_payload_decodes_to_digit_pairs_witness:
  "\<exists>p. encodeWritePayload (initial_state\<lparr>writeValue := js ''0fB2'', writeMode := Hex\<rparr>) = Inr p
       \<and> decodeBytes p = Inr [0x0F, 0xB2]"
proof -
  let ?st = "initial_state\<lparr>writeValue := js ''0fB2'', writeMode := Hex\<rparr>"
  have 1: "writeMode ?st = Hex \<and> list_all is_hex_digit (writeValue ?st) \<and> even (length (writeValue ?st))"
    by (simp add: js_def is_hex_digit_def)
  have 2: "writeValue ?st \<noteq> []" by (simp add: js_def)
  have 3: "spec_hex_pair_bytes (writeValue ?st) = [0x0F, 0xB2]"
    by (simp add: js_def hex_digit_value_def)
  from hex_payload_decodes_to_digit_pairs[of ?st] 1 2 3 show ?thesis by metis
qed

text \<open>
  C4, as amended. In hex mode the characters that are not hex digits are discarded, not
  rejected. Encoding fails with \<open>Error('Provide data before writing')\<close> when the trimmed
  input is empty, and with \<open>Error('Hex payload must contain an even number of digits')\<close>
  when the hex digits that remain are none or odd in number; no payload is produced
  then. In every other case a payload is produced, and it decodes to the bytes of the
  consecutive pairs of the remaining digits.
\<close>

theorem hex_payload_rejects_odd_or_empty_digits:
  assumes "writeMode st = Hex"
  shows "(let h = filter is_hex_digit (trim (writeValue st))
          in if trim (writeValue st) = []
             then encodeWritePayload st = Inl (Error ''Provide data before writing'')
             else if h = [] \<or> odd (length h)
             then encodeWritePayload st
                    = Inl (Error ''Hex payload must contain an even number of digits'')
             else \<exists>p. encodeWritePayload st = Inr p \<and> decodeBytes p = Inr (spec_hex_pair_bytes h))"
proof -
  define h where "h = filter is_hex_digit (trim (writeValue st))"
  consider "trim (writeValue st) = []"
    | "trim (writeValue st) \<noteq> []" "h = [] \<or> odd (length h)"
    | "trim (writeValue st) \<noteq> []" "h \<noteq> []" "even (length h)" by blast
  then have "if trim (writeValue st) = []
             then encodeWritePayload st = Inl (Error ''Provide data before writing'')
             else if h = [] \<or> odd (length h)
             then encodeWritePayload st
                    = Inl (Error ''Hex payload must contain an even number of digits'')
             else \<exists>p. encodeWritePayload st = Inr p \<and> decodeBytes p = Inr (spec_hex_pair_bytes h)"
  proof cases
    case 1
    then show ?thesis by (simp add: encodeWritePayload_def)
  next
    case 2
    then show ?thesis using assms
      by (auto simp: encodeWritePayload_def Let_def h_def odd_iff_mod_2_eq_one)
  next
    case 3
    then show ?thesis using encode_hex[OF assms 3(1) h_def[symmetric] 3(2) 3(3)] by simp
  qed
  then show ?thesis unfolding h_def Let_def .
qed

text \<open>Three hex digits are rejected.\<close>

theorem hex_payload_rejects_odd_or_empty_digits_witness:
  "encodeWritePayload (initial_state\<lparr>writeValue := js ''abc'', writeMode := Hex\<rparr>)
     = Inl (Error ''Hex payload must contain an even number of digits'')"
proof -
  let ?st = "initial_state\<lparr>writeValue := js ''abc'', writeMode := Hex\<rparr>"
  have 1: "writeMode ?st = Hex" by simp
  have 2: "trim (writeValue ?st) = js ''abc''" by code_simp
  have 3: "filter is_hex_digit (js ''abc'') = js ''abc''" by code_simp
  have 4: "js ''abc'' \<noteq> [] \<and> odd (length (js ''abc''))" by (simp add: js_def)
  from hex_payload_rejects_odd_or_empty_digits[OF 1] show ?thesis
    unfolding 2 3 Let_def using 4 by simp
qed

text \<open>
  C4 as it was stated fails: \<open>a1 b2\<close> contains a space and \<open>a-1\<close> has odd length and a
  dash, and both produce a payload.
\<close>

theorem hex_payload_accepts_other_characters_counterexample:
  "\<not> list_all is_hex_digit (js ''a1 b2'')
   \<and> encodeWritePayload (initial_state\<lparr>writeValue := js ''a1 b2'', writeMode := Hex\<rparr>) = Inr (js ''obI='')
   \<and> odd (length (js ''a-1''))
   \<and> encodeWritePayload (initial_state\<lparr>writeValue := js ''a-1'', writeMode := Hex\<rparr>) = Inr (js ''oQ=='')"
  by code_simp

text \<open>
  C7, as amended. In text mode the input is trimmed first. For every input whose
  trimmed form is not empty, the payload decodes to exactly the UTF-8 bytes of the
  trimmed input.
\<close>

theorem text_payload_decodes_to_utf8_of_trimmed:
  assumes "writeMode st = Text" and "trim (writeValue st) \<noteq> []"
  shows "\<exists>p. encodeWritePayload st = Inr p
            \<and> decodeBytes p = Inr (encoder_encode (trim (writeValue st)))"
proof -
  obtain p where "btoa (map ucast (encoder_encode (trim (writeValue st)))) = Inr p"
    and "decodeBytes p = Inr (encoder_encode (trim (writeValue st)))"
    using decodeBytes_btoa by blast
  then show ?thesis
    using assms by (simp add: encodeWritePayload_def Let_def fromCharCode_bytes)
qed

text \<open>White space on both sides of \<open>hi\<close>.\<close>

theorem text_payload_decodes_to_utf8_of_trimmed_witness:
  "\<exists>p. encodeWritePayload (initial_state\<lparr>writeValue := js '' hi '', writeMode := Text\<rparr>) = Inr p
       \<and> decodeBytes p = Inr [0x68, 0x69]"
proof -
  let ?st = "initial_state\<lparr>writeValue := js '' hi '', writeMode := Text\<rparr>"
  have 1: "writeMode ?st = Text" by simp
  have 2: "trim (writeValue ?st) = js ''hi''" by code_simp
  have 3: "trim (writeValue ?st) \<noteq> []" unfolding 2 by (simp add: js_def)
  have 4: "encoder_encode (js ''hi'') = [0x68, 0x69]" by code_simp
  from text_payload_decodes_to_utf8_of_trimmed[OF 1 3] show ?thesis unfolding 2 4 .
qed

text \<open>
  C7 as it was stated fails on an input with white space at an end: for \<open>" a"\<close> the
  payload decodes to the one byte of \<open>a\<close>, while the UTF-8 encoding of the input has two
  bytes; and for the non-empty input \<open>" "\<close> there is no payload at all.
\<close>

theorem text_payload_is_trimmed_counterexample:
  "encodeWritePayload (initial_state\<lparr>writeValue := js '' a'', writeMode := Text\<rparr>) = Inr (js ''YQ=='')
   \<and> decodeBytes (js ''YQ=='') = Inr [0x61]
   \<and> encoder_encode (js '' a'') = [0x20, 0x61]
   \<and> encodeWritePayload (initial_state\<lparr>writeValue := js '' '', writeMode := Text\<rparr>)
       = Inl (Error ''Provide data before writing'')"
  by code_simp

section \<open>Properties of the device cache and the subscriptions\<close>

text \<open>
  C8. For every \<open>getDevices\<close> response \<open>r\<close>, \<open>refreshDevices\<close> sets the device list to
  exactly \<open>r\<close>, whatever it was before. When the id of the active device does not occur
  in \<open>r\<close>, no device is selected afterwards: \<open>ensureDevice\<close> fails, and the selection is
  \<open>null\<close> unless it was the empty string, which counts as no selection already. A
  selection that occurs in \<open>r\<close> is kept.
\<close>

theorem refreshDevices_replaces_cache:
  assumes "invoke (js ''plugin:web-bluetooth|get_devices'') (JObj []) = Inr r"
    and "refreshDevices invoke st tr = (res, st', tr')"
  shows "res = Inr () \<and> devices st' = r
         \<and> (\<forall>a. activeDeviceId st = Some a \<and> a \<notin> set (map id' r)
               \<longrightarrow> ensureDevice st' = Inl (Error ''Select or request a device first'')
                 \<and> (a \<noteq> [] \<longrightarrow> activeDeviceId st' = None))
         \<and> (\<forall>a. activeDeviceId st = Some a \<and> a \<in> set (map id' r) \<longrightarrow> activeDeviceId st' = Some a)
         \<and> (activeDeviceId st = None \<longrightarrow> activeDeviceId st' = None)"
proof -
  have g: "getDevices invoke tr = (Inr r, tr @ [(js ''plugin:web-bluetooth|get_devices'', JObj [])])"
    using assms(1) by (simp add: getDevices_def call_def NAMESPACE_def Let_def get_devices_command)
  show ?thesis
    using assms(2) unfolding refreshDevices_def g
    by (auto simp: Let_def ensureDevice_def list_ex_iff split: option.splits if_splits)
qed

text \<open>The selected device \<open>X\<close> is not in the response.\<close>

theorem refreshDevices_replaces_cache_witness:
  "(case refreshDevices devices_host
           (initial_state\<lparr>devices := [device_X], activeDeviceId := Some (js ''X'')\<rparr>) [] of
      (res, st', tr') \<Rightarrow> res = Inr () \<and> devices st' = [device_Y] \<and> activeDeviceId st' = None)"
proof -
  let ?st = "initial_state\<lparr>devices := [device_X], activeDeviceId := Some (js ''X'')\<rparr>"
  obtain res st' tr' where e: "refreshDevices devices_host ?st [] = (res, st', tr')"
    by (cases "refreshDevices devices_host ?st []") auto
  have i: "devices_host (js ''plugin:web-bluetooth|get_devices'') (JObj []) = Inr [device_Y]"
    by (simp add: devices_host_def)
  have a: "activeDeviceId ?st = Some (js ''X'') \<and> js ''X'' \<notin> set (map id' [device_Y])"
    and n: "js ''X'' \<noteq> []"
    by (simp_all add: js_def device_Y_def)
  from refreshDevices_replaces_cache[OF i e] a n
  have "res = Inr () \<and> devices st' = [device_Y] \<and> activeDeviceId st' = None" by blast
  then show ?thesis unfolding e by simp
qed

text \<open>
  C9. When \<open>startNotify\<close> has succeeded, a second \<open>startNotify\<close> leaves the subscribed
  keys as the first one left them, whatever the host answers; the key is subscribed
  after the first, and a list without duplicates stays without duplicates. When the
  current key is not subscribed, \<open>stopNotify\<close> leaves the state unchanged.
\<close>

theorem notify_start_idempotent_stop_noop:
  "(\<forall>st1 tr1 r2 st2 tr2.
       startNotify invoke_a st tr = (Inr (), st1, tr1) \<and> startNotify invoke_b st1 tr1 = (r2, st2, tr2)
       \<longrightarrow> subscribedKeys st2 = subscribedKeys st1
         \<and> isSubscribed st1
         \<and> (distinct (subscribedKeys st) \<longrightarrow> distinct (subscribedKeys st1)))
   \<and> (\<not> isSubscribed st \<longrightarrow> fst (snd (stopNotify invoke st tr)) = st)"
proof -
  have start: "subscribedKeys st2 = subscribedKeys st1 \<and> isSubscribed st1
         \<and> (distinct (subscribedKeys st) \<longrightarrow> distinct (subscribedKeys st1))"
    if 1: "startNotify invoke_a st tr = (Inr (), st1, tr1)"
      and 2: "startNotify invoke_b st1 tr1 = (r2, st2, tr2)" for st1 tr1 r2 st2 tr2
  proof -
    from 1 obtain d where d: "ensureDevice st = Inr d"
      and w: "workingServiceUuid st \<noteq> []" "workingCharacteristicUuid st \<noteq> []"
      and st1: "st1 = (if subKey d (workingServiceUuid st) (workingCharacteristicUuid st)
                          \<in> set (subscribedKeys st) then st
                       else st\<lparr>subscribedKeys := subscribedKeys st
                              @ [subKey d (workingServiceUuid st) (workingCharacteristicUuid st)]\<rparr>)"
      by (auto simp: startNotify_def Let_def split: sum.splits if_splits prod.splits)
    have a: "activeDeviceId st = Some d" "d \<noteq> []"
      using d by (auto simp: ensureDevice_def split: option.splits if_splits)
    have same: "activeDeviceId st1 = Some d" "workingServiceUuid st1 = workingServiceUuid st"
      "workingCharacteristicUuid st1 = workingCharacteristicUuid st"
      using a by (simp_all add: st1)
    have mem: "subKey d (workingServiceUuid st) (workingCharacteristicUuid st) \<in> set (subscribedKeys st1)"
      by (simp add: st1)
    have sub: "isSubscribed st1"
      using same a w mem by (simp add: isSubscribed_def)
    have e1: "ensureDevice st1 = Inr d" using same a by (simp add: ensureDevice_def)
    have "subscribedKeys st2 = subscribedKeys st1"
      using 2 mem w unfolding startNotify_def e1 same
      by (auto simp: Let_def split: sum.splits if_splits prod.splits)
    moreover have "distinct (subscribedKeys st) \<longrightarrow> distinct (subscribedKeys st1)"
      by (simp add: st1)
    ultimately show ?thesis using sub by simp
  qed
  have stop: "fst (snd (stopNotify invoke st tr)) = st" if n: "\<not> isSubscribed st"
  proof (cases "ensureDevice st")
    case (Inl e)
    then show ?thesis by (simp add: stopNotify_def)
  next
    case (Inr d)
    then have a: "activeDeviceId st = Some d" "d \<noteq> []"
      by (auto simp: ensureDevice_def split: option.splits if_splits)
    show ?thesis
    proof (cases "workingServiceUuid st = [] \<or> workingCharacteristicUuid st = []")
      case True
      then show ?thesis using Inr by (auto simp: stopNotify_def)
    next
      case False
      then have "subKey d (workingServiceUuid st) (workingCharacteristicUuid st) \<notin> set (subscribedKeys st)"
        using n a by (simp add: isSubscribed_def)
      then have "filter (\<lambda>item. item \<noteq> subKey d (workingServiceUuid st) (workingCharacteristicUuid st))
                   (subscribedKeys st) = subscribedKeys st"
        by (auto simp: filter_id_conv)
      then show ?thesis using Inr False
        by (auto simp: stopNotify_def Let_def split: sum.splits prod.splits)
    qed
  qed
  from start stop show ?thesis by blast
qed

text \<open>Two starts and one stop on a fresh selection.\<close>

theorem notify_start_idempotent_stop_noop_witness:
  "subscribedKeys (fst (snd (startNotify accepting_host
       (initial_state\<lparr>activeDeviceId := Some (js ''X''), workingServiceUuid := js ''S'',
                      workingCharacteristicUuid := js ''C''\<rparr>) []))) = [js ''X|S|C'']
   \<and> subscribedKeys (fst (snd (startNotify accepting_host
       (initial_state\<lparr>activeDeviceId := Some (js ''X''), workingServiceUuid := js ''S'',
                      workingCharacteristicUuid := js ''C'', subscribedKeys := [js ''X|S|C'']\<rparr>)
       [(js ''plugin:web-bluetooth|start_notifications'',
         JObj [(js ''request'',
                JObj [(js ''deviceId'', JStr (js ''X'')), (js ''serviceUuid'', JStr (js ''S'')),
                      (js ''characteristicUuid'', JStr (js ''C''))])])]))) = [js ''X|S|C'']
   \<and> fst (snd (stopNotify accepting_host
       (initial_state\<lparr>activeDeviceId := Some (js ''X''), workingServiceUuid := js ''S'',
                      workingCharacteristicUuid := js ''C''\<rparr>) []))
     = initial_state\<lparr>activeDeviceId := Some (js ''X''), workingServiceUuid := js ''S'',
                      workingCharacteristicUuid := js ''C''\<rparr>"
proof -
  let ?st = "initial_state\<lparr>activeDeviceId := Some (js ''X''), workingServiceUuid := js ''S'',
                            workingCharacteristicUuid := js ''C''\<rparr>"
  let ?st1 = "initial_state\<lparr>activeDeviceId := Some (js ''X''), workingServiceUuid := js ''S'',
                      workingCharacteristicUuid := js ''C'', subscribedKeys := [js ''X|S|C'']\<rparr>"
  let ?tr1 = "[(js ''plugin:web-bluetooth|start_notifications'',
         JObj [(js ''request'',
                JObj [(js ''deviceId'', JStr (js ''X'')), (js ''serviceUuid'', JStr (js ''S'')),
                      (js ''characteristicUuid'', JStr (js ''C''))])])]"
  have 1: "startNotify accepting_host ?st [] = (Inr (), ?st1, ?tr1)" by code_simp
  obtain r2 st2 tr2 where 2: "startNotify accepting_host ?st1 ?tr1 = (r2, st2, tr2)"
    by (cases "startNotify accepting_host ?st1 ?tr1") auto
  have 3: "\<not> isSubscribed ?st" by code_simp
  have k: "subscribedKeys ?st1 = [js ''X|S|C'']" by simp
  from notify_start_idempotent_stop_noop
         [where st = ?st and tr = "[]" and invoke_a = accepting_host and invoke_b = accepting_host
            and invoke = accepting_host] 1 2 3
  have "subscribedKeys st2 = subscribedKeys ?st1"
    and "fst (snd (stopNotify accepting_host ?st [])) = ?st" by blast+
  then show ?thesis unfolding 1 2 using k by simp
qed

text \<open>
  C3, as amended. When a disconnect event for device \<open>X\<close> arrives while \<open>X\<close> is the
  active device, no key of \<open>X\<close> is subscribed afterwards, and \<open>isSubscribed\<close> reports
  false for \<open>X\<close> with every service and characteristic. When another device, or none,
  is active, the event changes nothing.
\<close>

theorem disconnect_of_active_device_clears_its_subscriptions:
  "(activeDeviceId st = Some (deviceId payload)
      \<longrightarrow> subKey (deviceId payload) s c \<notin> set (subscribedKeys (handleDisconnectEvent payload st))
        \<and> \<not> isSubscribed ((handleDisconnectEvent payload st)
                \<lparr>activeDeviceId := Some (deviceId payload), workingServiceUuid := s,
                 workingCharacteristicUuid := c\<rparr>))
   \<and> (activeDeviceId st \<noteq> Some (deviceId payload) \<longrightarrow> handleDisconnectEvent payload st = st)"
proof -
  have "startsWith (subKey (deviceId payload) s c) (deviceId payload @ js ''|'')"
    using startsWith_append[of "deviceId payload @ js ''|''" "s @ js ''|'' @ c"]
    by (simp add: subKey_def)
  then show ?thesis
    by (auto simp: handleDisconnectEvent_def isSubscribed_def)
qed

text \<open>Subscribed on \<open>X\<close>, then disconnected while \<open>X\<close> is active.\<close>

theorem disconnect_of_active_device_clears_its_subscriptions_witness:
  "isSubscribed (fst (snd (startNotify accepting_host
       (initial_state\<lparr>activeDeviceId := Some (js ''X''), workingServiceUuid := js ''S'',
                      workingCharacteristicUuid := js ''C''\<rparr>) [])))
   \<and> \<not> isSubscribed ((handleDisconnectEvent \<lparr>deviceId = js ''X''\<rparr>
        (fst (snd (startNotify accepting_host
       (initial_state\<lparr>activeDeviceId := Some (js ''X''), workingServiceUuid := js ''S'',
                      workingCharacteristicUuid := js ''C''\<rparr>) []))))
        \<lparr>activeDeviceId := Some (js ''X''), workingServiceUuid := js ''S'',
         workingCharacteristicUuid := js ''C''\<rparr>)"
proof -
  let ?st = "fst (snd (startNotify accepting_host
       (initial_state\<lparr>activeDeviceId := Some (js ''X''), workingServiceUuid := js ''S'',
                      workingCharacteristicUuid := js ''C''\<rparr>) []))"
  have 1: "isSubscribed ?st" by code_simp
  have 2: "activeDeviceId ?st = Some (deviceId \<lparr>deviceId = js ''X''\<rparr>)" by code_simp
  from disconnect_of_active_device_clears_its_subscriptions
         [where st = ?st and payload = "\<lparr>deviceId = js ''X''\<rparr>" and s = "js ''S''"
            and c = "js ''C''"] 1 2
  show ?thesis by simp
qed

text \<open>
  C3 as it was stated fails when the device is not the selected one: subscribe on
  \<open>X\<close>, select \<open>Y\<close>, receive the disconnect event of \<open>X\<close>, select \<open>X\<close> again, and
  \<open>isSubscribed\<close> still reports true.
\<close>

theorem disconnect_of_other_device_keeps_subscriptions_counterexample:
  "isSubscribed (fst (snd (startNotify accepting_host
       (initial_state\<lparr>activeDeviceId := Some (js ''X''), workingServiceUuid := js ''S'',
                      workingCharacteristicUuid := js ''C''\<rparr>) [])))
   \<and> isSubscribed (selectDevice device_X (handleDisconnectEvent \<lparr>deviceId = js ''X''\<rparr>
        (selectDevice device_Y (fst (snd (startNotify accepting_host
       (initial_state\<lparr>activeDeviceId := Some (js ''X''), workingServiceUuid := js ''S'',
                      workingCharacteristicUuid := js ''C''\<rparr>) []))))))"
  by code_simp

end
